theory Spec2Isabelle
  imports Complex_Main "HOL-Library.Product_Lexorder"
begin

section \<open>Errors\<close>

text \<open>The Python exceptions that the modelled code can raise.\<close>

datatype error = KeyError | IndexError | ValueError | TypeError | TreeError

fun mapM :: "('a \<Rightarrow> error + 'b) \<Rightarrow> 'a list \<Rightarrow> error + 'b list" where
  "mapM f [] = Inr []"
| "mapM f (x # xs) =
     (case f x of
        Inl e \<Rightarrow> Inl e
      | Inr y \<Rightarrow> (case mapM f xs of Inl e \<Rightarrow> Inl e | Inr ys \<Rightarrow> Inr (y # ys)))"

section \<open>Numbers\<close>

text \<open>
  The numeric columns are IEEE doubles. A double is modelled as a real number or one of
  the three special values; the operations follow the IEEE rules on the special values
  and on division by zero, which numpy returns (with a warning) instead of raising.
  Finite results are exact: rounding, overflow of finite values and the sign of zero are
  not modelled, except in \<open>expit_f\<close> below.
\<close>

datatype npfloat = Fin real | PInf | NInf | NaN

fun isnan :: "npfloat \<Rightarrow> bool" where
  "isnan NaN = True"
| "isnan _ = False"

fun isfinite :: "npfloat \<Rightarrow> bool" where
  "isfinite (Fin _) = True"
| "isfinite _ = False"

fun fneg :: "npfloat \<Rightarrow> npfloat" where
  "fneg (Fin a) = Fin (- a)"
| "fneg PInf = NInf"
| "fneg NInf = PInf"
| "fneg NaN = NaN"

fun fadd :: "npfloat \<Rightarrow> npfloat \<Rightarrow> npfloat" where
  "fadd (Fin a) (Fin b) = Fin (a + b)"
| "fadd (Fin a) PInf = PInf"
| "fadd (Fin a) NInf = NInf"
| "fadd PInf (Fin b) = PInf"
| "fadd PInf PInf = PInf"
| "fadd NInf (Fin b) = NInf"
| "fadd NInf NInf = NInf"
| "fadd _ _ = NaN"

definition fsub :: "npfloat \<Rightarrow> npfloat \<Rightarrow> npfloat" where
  "fsub a b = fadd a (fneg b)"

definition signed_inf :: "real \<Rightarrow> npfloat" where
  "signed_inf s = (if s = 0 then NaN else if 0 < s then PInf else NInf)"

fun fmul :: "npfloat \<Rightarrow> npfloat \<Rightarrow> npfloat" where
  "fmul (Fin a) (Fin b) = Fin (a * b)"
| "fmul (Fin a) PInf = signed_inf a"
| "fmul (Fin a) NInf = signed_inf (- a)"
| "fmul PInf (Fin b) = signed_inf b"
| "fmul NInf (Fin b) = signed_inf (- b)"
| "fmul PInf PInf = PInf"
| "fmul NInf NInf = PInf"
| "fmul PInf NInf = NInf"
| "fmul NInf PInf = NInf"
| "fmul _ _ = NaN"

fun fdiv :: "npfloat \<Rightarrow> npfloat \<Rightarrow> npfloat" where
  "fdiv (Fin a) (Fin b) = (if b = 0 then signed_inf a else Fin (a / b))"
| "fdiv (Fin a) PInf = Fin 0"
| "fdiv (Fin a) NInf = Fin 0"
| "fdiv PInf (Fin b) = (if 0 \<le> b then PInf else NInf)"
| "fdiv NInf (Fin b) = (if 0 \<le> b then NInf else PInf)"
| "fdiv _ _ = NaN"

fun flog :: "npfloat \<Rightarrow> npfloat" where
  "flog (Fin a) = (if a = 0 then NInf else if a < 0 then NaN else Fin (ln a))"
| "flog PInf = PInf"
| "flog _ = NaN"

fun fexp :: "npfloat \<Rightarrow> npfloat" where
  "fexp (Fin a) = Fin (exp a)"
| "fexp PInf = PInf"
| "fexp NInf = Fin 0"
| "fexp NaN = NaN"

fun fsqrt :: "npfloat \<Rightarrow> npfloat" where
  "fsqrt (Fin a) = (if a < 0 then NaN else Fin (sqrt a))"
| "fsqrt PInf = PInf"
| "fsqrt _ = NaN"

text \<open>
  \<^verbatim>\<open>scipy.special.expit\<close>, the logistic function \<open>1 / (1 + exp (- x))\<close> on doubles. At
  the two ends the rounding decides the value and is modelled: from 37 upwards
  \<open>exp (- x)\<close> is below half the spacing of the doubles at 1, so \<open>1 + exp (- x)\<close> rounds to
  1 and the result is exactly 1; from \<open>- 710\<close> downwards \<open>exp (- x)\<close> overflows and the
  result is exactly 0. In between, the exact value stands for the rounded one.
\<close>

fun expit_f :: "npfloat \<Rightarrow> npfloat" where
  "expit_f (Fin a) =
     (if 37 \<le> a then Fin 1 else if a \<le> - 710 then Fin 0 else Fin (1 / (1 + exp (- a))))"
| "expit_f PInf = Fin 1"
| "expit_f NInf = Fin 0"
| "expit_f NaN = NaN"

definition fsum :: "npfloat list \<Rightarrow> npfloat" where
  "fsum xs = foldl fadd (Fin 0) xs"

text \<open>
  \<^verbatim>\<open>Series.mean()\<close> and \<^verbatim>\<open>Series.std()\<close> of pandas: both skip the NaN entries; the mean
  of no entry is NaN, and the standard deviation has \<^verbatim>\<open>ddof=1\<close>, so it is NaN for fewer
  than two entries.
\<close>

definition series_mean :: "npfloat list \<Rightarrow> npfloat" where
  "series_mean xs =
     (let ys = filter (\<lambda>x. \<not> isnan x) xs
      in if ys = [] then NaN else fdiv (fsum ys) (Fin (real (length ys))))"

definition series_std :: "npfloat list \<Rightarrow> npfloat" where
  "series_std xs =
     (let ys = filter (\<lambda>x. \<not> isnan x) xs; n = length ys
      in if n \<le> 1 then NaN
         else let avg = fdiv (fsum ys) (Fin (real n));
                  sqr = map (\<lambda>y. fmul (fsub avg y) (fsub avg y)) ys
              in fsqrt (fdiv (fsum sqr) (Fin (real (n - 1)))))"

section \<open>regression.py: the regression function library\<close>

definition linea_f :: "npfloat \<Rightarrow> npfloat \<Rightarrow> npfloat \<Rightarrow> npfloat" where
  "linea_f velocity distance intercept = fadd intercept (fmul velocity distance)"

definition expon_f :: "npfloat \<Rightarrow> npfloat \<Rightarrow> npfloat \<Rightarrow> npfloat" where
  "expon_f velocity distance intercept = fadd intercept (fexp (fmul velocity distance))"

definition quadr_f :: "npfloat \<Rightarrow> npfloat \<Rightarrow> npfloat \<Rightarrow> npfloat" where
  "quadr_f velocity distance intercept =
     fadd (fmul intercept distance) (fmul velocity (fmul distance distance))"

definition logar_f :: "npfloat \<Rightarrow> npfloat \<Rightarrow> npfloat \<Rightarrow> npfloat" where
  "logar_f velocity distance intercept = fadd intercept (fmul velocity (flog distance))"

definition asymp_f :: "npfloat \<Rightarrow> npfloat \<Rightarrow> npfloat \<Rightarrow> npfloat" where
  "asymp_f velocity distance intercept =
     fsub (Fin 1) (fmul (Fin (1 - 0)) (fexp (fmul (fneg velocity) distance)))"

text \<open>The default value of \<^verbatim>\<open>intercept\<close> of \<^verbatim>\<open>logar_f\<close>.\<close>

definition logar_intercept :: npfloat where
  "logar_intercept = Fin (1 / 10 ^ 9)"

datatype Models = linear | exponential | quadratic | logarithmic | asymptotic

text \<open>The string value of each member of the enumeration.\<close>

fun Models_value :: "Models \<Rightarrow> string" where
  "Models_value linear = ''linear''"
| "Models_value exponential = ''exponential''"
| "Models_value quadratic = ''quadratic''"
| "Models_value logarithmic = ''logarithmic''"
| "Models_value asymptotic = ''asymptotic''"

text \<open>
  A regression function as \<^verbatim>\<open>get_logit\<close> calls it, with \<^verbatim>\<open>velocity\<close> and \<^verbatim>\<open>distance\<close>
  only: the intercept is the default of the function's definition.
\<close>

type_synonym regfun = "npfloat \<Rightarrow> npfloat \<Rightarrow> npfloat"

definition MODEL_DICT :: "(string \<times> regfun) list" where
  "MODEL_DICT =
     [(''linear'', \<lambda>v d. linea_f v d (Fin 0)),
      (''exponential'', \<lambda>v d. expon_f v d (Fin 0)),
      (''quadratic'', \<lambda>v d. quadr_f v d (Fin 0)),
      (''logarithmic'', \<lambda>v d. logar_f v d logar_intercept),
      (''asymptotic_func'', \<lambda>v d. asymp_f v d (Fin 0))]"

text \<open>\<^verbatim>\<open>MODEL_DICT[model]\<close> of \<^verbatim>\<open>GenerativeBase.__init__\<close>: a missing key raises KeyError.\<close>

definition select_model :: "string \<Rightarrow> error + regfun" where
  "select_model model =
     (case map_of MODEL_DICT model of None \<Rightarrow> Inl KeyError | Some f \<Rightarrow> Inr f)"

section \<open>Trees\<close>

text \<open>
  A node of a toytree tree, with the attributes the code reads: the node index \<^verbatim>\<open>idx\<close>,
  the branch length \<^verbatim>\<open>dist\<close> to the parent and the list of children. A tree is its root
  node (\<^verbatim>\<open>tree.treenode\<close>). The tree library itself is outside the repository; the
  functions of it that the code calls are modelled here as the library documents them.
\<close>

datatype treenode = TreeNode (idx: nat) (dist_node: real) (children: "treenode list")

fun nodes :: "treenode \<Rightarrow> treenode list" where
  "nodes (TreeNode i d cs) = TreeNode i d cs # concat (map nodes cs)"

text \<open>\<^verbatim>\<open>get_leaves()\<close>; \<^verbatim>\<open>len(node)\<close> is the number of leaves below the node.\<close>

fun leaves :: "treenode \<Rightarrow> treenode list" where
  "leaves (TreeNode i d cs) =
     (if cs = [] then [TreeNode i d cs] else concat (map leaves cs))"

definition ntips :: "treenode \<Rightarrow> nat" where
  "ntips t = length (leaves t)"

text \<open>
  \<^verbatim>\<open>tree.idx_dict\<close>, the dictionary from node index to node. The indices of a tree are
  distinct (\<open>wf_tree\<close> below), so each index has one node.
\<close>

definition idx_dict :: "treenode \<Rightarrow> nat \<Rightarrow> treenode option" where
  "idx_dict t = map_of (map (\<lambda>n. (idx n, n)) (nodes t))"

text \<open>
  The indexing of toytree: no two nodes share an index, and the tips are the nodes
  \<open>0, \<dots>, ntips - 1\<close>.
\<close>

definition wf_tree :: "treenode \<Rightarrow> bool" where
  "wf_tree t \<longleftrightarrow>
     distinct (map idx (nodes t)) \<and> set (map idx (leaves t)) = set [0..<ntips t]"

text \<open>
  \<^verbatim>\<open>get_distance(target, target2)\<close> called on the root \<open>rt\<close>: the branch lengths of the nodes on the two
  paths from the targets up to their most recent common ancestor, the ancestor excluded,
  summed.
\<close>

fun first_some :: "'a option list \<Rightarrow> 'a option" where
  "first_some [] = None"
| "first_some (None # xs) = first_some xs"
| "first_some (Some x # xs) = Some x"

fun path_to :: "treenode \<Rightarrow> nat \<Rightarrow> treenode list option" where
  "path_to (TreeNode i d cs) a =
     (if i = a then Some [TreeNode i d cs]
      else map_option ((#) (TreeNode i d cs)) (first_some (map (\<lambda>c. path_to c a) cs)))"

fun strip_common :: "treenode list \<Rightarrow> treenode list \<Rightarrow> treenode list \<times> treenode list" where
  "strip_common (x # xs) (y # ys) =
     (if idx x = idx y then strip_common xs ys else (x # xs, y # ys))"
| "strip_common xs ys = (xs, ys)"

definition get_distance :: "treenode \<Rightarrow> treenode \<Rightarrow> treenode \<Rightarrow> error + real" where
  "get_distance rt target target2 =
     (case (path_to rt (idx target), path_to rt (idx target2)) of
        (Some p, Some p2) \<Rightarrow>
          (case strip_common p p2 of
             (r, r2) \<Rightarrow> Inr (sum_list (map dist_node r2) + sum_list (map dist_node r)))
      | _ \<Rightarrow> Inl TreeError)"

section \<open>generative.py\<close>

subsection \<open>get_dist\<close>

definition get_dist :: "treenode \<Rightarrow> nat \<Rightarrow> nat \<Rightarrow> error + real" where
  "get_dist tree idx0 idx1 =
     (case idx_dict tree idx0 of
        None \<Rightarrow> Inl KeyError
      | Some n0 \<Rightarrow>
          (case idx_dict tree idx1 of
             None \<Rightarrow> Inl KeyError
           | Some n1 \<Rightarrow> get_distance tree n0 n1))"

subsection \<open>RandomTree.get_clade_idxs\<close>

text \<open>
  One pass of the loop body on the list \<^verbatim>\<open>self.clade_idxs\<close>. \<^verbatim>\<open>sorted\<close> is stable, so
  the keys are computed first and the pairs sorted on the key alone.
\<close>

definition nchildren :: "treenode \<Rightarrow> nat \<Rightarrow> error + nat" where
  "nchildren tree x =
     (case idx_dict tree x of None \<Rightarrow> Inl KeyError | Some n \<Rightarrow> Inr (length (children n)))"

definition expand_step :: "treenode \<Rightarrow> nat list \<Rightarrow> error + nat list" where
  "expand_step tree clade_idxs =
     (case mapM (nchildren tree) clade_idxs of
        Inl e \<Rightarrow> Inl e
      | Inr keys \<Rightarrow>
          (case map snd (sort_key fst (zip keys clade_idxs)) of
             [] \<Rightarrow> Inl IndexError
           | nidx # _ \<Rightarrow>
               (case idx_dict tree nidx of
                  None \<Rightarrow> Inl KeyError
                | Some n \<Rightarrow> Inr (remove1 nidx clade_idxs @ map idx (children n)))))"

fun expand_loop :: "treenode \<Rightarrow> nat \<Rightarrow> nat list \<Rightarrow> error + nat list" where
  "expand_loop tree 0 clade_idxs = Inr clade_idxs"
| "expand_loop tree (Suc k) clade_idxs =
     (case expand_step tree clade_idxs of
        Inl e \<Rightarrow> Inl e
      | Inr clade_idxs' \<Rightarrow> expand_loop tree k clade_idxs')"

text \<open>
  \<^verbatim>\<open>nclades\<close> is \<^verbatim>\<open>None\<close> by default, and \<^verbatim>\<open>None + 1\<close> raises TypeError;
  \<^verbatim>\<open>range(2, nclades + 1)\<close> has \<open>nclades - 1\<close> elements, none when \<open>nclades \<le> 1\<close>.
\<close>

definition get_clade_idxs :: "treenode \<Rightarrow> int option \<Rightarrow> error + nat list" where
  "get_clade_idxs tree nclades =
     (case nclades of
        None \<Rightarrow> Inl TypeError
      | Some n \<Rightarrow> expand_loop tree (nat (n - 1)) [idx tree])"

subsection \<open>GenerativeBase.get_groups\<close>

definition get_group_sizes :: "treenode \<Rightarrow> nat list \<Rightarrow> error + (nat \<times> nat) list" where
  "get_group_sizes tree clade_idxs =
     mapM (\<lambda>(i, j). case idx_dict tree j of
                       None \<Rightarrow> Inl KeyError
                     | Some n \<Rightarrow> Inr (i, length (leaves n)))
          (enumerate 0 clade_idxs)"

text \<open>\<^verbatim>\<open>np.concatenate\<close> of an empty list of arrays raises ValueError.\<close>

definition get_groups :: "treenode \<Rightarrow> nat list \<Rightarrow> error + (nat \<times> nat) list \<times> nat list" where
  "get_groups tree clade_idxs =
     (case get_group_sizes tree clade_idxs of
        Inl e \<Rightarrow> Inl e
      | Inr group_sizes \<Rightarrow>
          if group_sizes = [] then Inl ValueError
          else Inr (group_sizes, concat (map (\<lambda>(i, s). replicate s i) group_sizes)))"

subsection \<open>Random generators\<close>

text \<open>
  A generator is the sequence of standard variates that it has still to produce; drawing
  takes the first and leaves the rest. \<^verbatim>\<open>uniform\<close> reads its variate as uniform on
  \<open>[0, 1)\<close>, \<^verbatim>\<open>normal\<close> as standard normal, \<^verbatim>\<open>binomial(1, p)\<close> as uniform on \<open>[0, 1)\<close>,
  giving 1 when it is below \<open>p\<close>. The bit generator and its transformations belong to
  numpy; what the model keeps is which generator a draw consumes, in which order, and
  how the drawn value depends on the parameters.
\<close>

type_synonym generator = "nat \<Rightarrow> real"

definition advance :: "generator \<Rightarrow> nat \<Rightarrow> generator" where
  "advance g k = (\<lambda>n. g (n + k))"

definition rng_uniform :: "generator \<Rightarrow> real \<Rightarrow> real \<Rightarrow> real \<times> generator" where
  "rng_uniform g low high = (low + (high - low) * g 0, advance g 1)"

definition rng_normal :: "generator \<Rightarrow> real \<Rightarrow> real \<Rightarrow> real \<times> generator" where
  "rng_normal g loc scale = (loc + scale * g 0, advance g 1)"

text \<open>A list comprehension that draws once per element, threading the generator.\<close>

fun draw_each :: "(generator \<Rightarrow> 'a \<times> generator) \<Rightarrow> nat \<Rightarrow> generator \<Rightarrow> 'a list \<times> generator" where
  "draw_each f 0 g = ([], g)"
| "draw_each f (Suc k) g =
     (case f g of (x, g') \<Rightarrow> (case draw_each f k g' of (xs, g'') \<Rightarrow> (x # xs, g'')))"

text \<open>
  \<^verbatim>\<open>rng.normal(loc, scale)\<close> on arrays: one draw per element, in order; a negative scale
  or arrays of different lengths raise ValueError.
\<close>

definition rng_normal_vec :: "generator \<Rightarrow> real list \<Rightarrow> real list \<Rightarrow> error + real list \<times> generator" where
  "rng_normal_vec g loc scale =
     (if length loc \<noteq> length scale \<or> list_ex (\<lambda>s. s < 0) scale then Inl ValueError
      else Inr (map (\<lambda>(k, m, s). m + s * g k) (enumerate 0 (zip loc scale)),
                advance g (length loc)))"

text \<open>\<^verbatim>\<open>binomial(1, p)\<close> on an array: every \<open>p\<close> must be a number in \<open>[0, 1]\<close>.\<close>

fun valid_p :: "npfloat \<Rightarrow> bool" where
  "valid_p (Fin a) = (0 \<le> a \<and> a \<le> 1)"
| "valid_p _ = False"

fun bernoulli :: "real \<Rightarrow> npfloat \<Rightarrow> nat" where
  "bernoulli u (Fin a) = (if u < a then 1 else 0)"
| "bernoulli u _ = 0"

definition binomial1 :: "generator \<Rightarrow> npfloat list \<Rightarrow> error + nat list \<times> generator" where
  "binomial1 g ps =
     (if list_ex (\<lambda>p. \<not> valid_p p) ps then Inl ValueError
      else Inr (map (\<lambda>(k, p). bernoulli (g k) p) (enumerate 0 ps), advance g (length ps)))"

text \<open>
  \<^verbatim>\<open>DataFrame.sample(n)\<close> chooses \<open>n\<close> row positions without replacement, every
  remaining position with the same weight: each choice takes one variate, uniform on
  \<open>[0, 1)\<close>, picks the position whose interval of length \<open>1 / m\<close> holds it, \<open>m\<close> being the
  size of the pool, and removes the position from the pool.
\<close>

fun remove_nth :: "nat \<Rightarrow> 'a list \<Rightarrow> 'a list" where
  "remove_nth k [] = []"
| "remove_nth 0 (x # xs) = xs"
| "remove_nth (Suc k) (x # xs) = x # remove_nth k xs"

definition pick :: "generator \<Rightarrow> nat \<Rightarrow> nat" where
  "pick g m = nat \<lfloor>g 0 * real m\<rfloor> mod m"

fun choice :: "generator \<Rightarrow> 'a list \<Rightarrow> nat \<Rightarrow> 'a list \<times> generator" where
  "choice g pool 0 = ([], g)"
| "choice g pool (Suc n) =
     (if pool = [] then ([], g)
      else let k = pick g (length pool)
           in case choice (advance g 1) (remove_nth k pool) n of
                (rest, g') \<Rightarrow> (pool ! k # rest, g'))"

subsection \<open>The tables\<close>

text \<open>
  A row of \<^verbatim>\<open>ridata\<close> as \<^verbatim>\<open>get_crosses\<close> builds it, as \<^verbatim>\<open>get_velocities\<close> extends it,
  and as \<^verbatim>\<open>get_logit\<close> completes it; the column \<^verbatim>\<open>RI\<close> is absent until
  \<^verbatim>\<open>sample_observations\<close> writes it.
\<close>

record cross =
  sidx0 :: nat
  sidx1 :: nat
  dist_col :: real

record velo = cross +
  distnorm :: npfloat
  joint_velo :: real

record row = velo +
  expit :: npfloat
  RI :: "nat option"

record params =
  beta :: real
  psi_means :: "real list"
  psi_stds :: "real list"

record species =
  gidx :: nat
  psi :: real

subsection \<open>GenerativeBase.get_crosses\<close>

text \<open>\<^verbatim>\<open>itertools.combinations(range(n), 2)\<close>.\<close>

definition combinations2 :: "nat \<Rightarrow> (nat \<times> nat) list" where
  "combinations2 n = concat (map (\<lambda>i. map (\<lambda>j. (i, j)) [Suc i..<n]) [0..<n])"

text \<open>
  Unpacking \<^verbatim>\<open>zip(*combinations)\<close> into \<^verbatim>\<open>tipsa, tipsb\<close> raises ValueError when there is
  no combination.
\<close>

definition get_crosses :: "treenode \<Rightarrow> error + cross list" where
  "get_crosses tree =
     (let combos = combinations2 (ntips tree)
      in if combos = [] then Inl ValueError
         else mapM (\<lambda>(i, j). case get_dist tree i j of
                               Inl e \<Rightarrow> Inl e
                             | Inr d \<Rightarrow> Inr \<lparr>sidx0 = i, sidx1 = j, dist_col = d / 2\<rparr>)
                   combos)"

subsection \<open>GenerativeBase.get_true_param_dists\<close>

text \<open>\<^verbatim>\<open>np.linspace(start, stop, num)\<close>.\<close>

definition linspace :: "real \<Rightarrow> real \<Rightarrow> nat \<Rightarrow> real list" where
  "linspace start stop num =
     (if num = 1 then [start]
      else map (\<lambda>i. start + real i * ((stop - start) / real (num - 1))) [0..<num])"

definition get_true_param_dists :: "generator \<Rightarrow> nat list \<Rightarrow> bool \<Rightarrow> params \<times> generator" where
  "get_true_param_dists rng clade_idxs random =
     (if random then
        (case rng_uniform rng 3 5 of
           (b, rng1) \<Rightarrow>
             (case draw_each (\<lambda>g. rng_uniform g 0 2) (length clade_idxs) rng1 of
                (means, rng2) \<Rightarrow>
                  (case draw_each (\<lambda>g. case rng_normal g 0 1 of (x, g') \<Rightarrow> (\<bar>x\<bar>, g'))
                          (length clade_idxs) rng2 of
                     (stds, rng3) \<Rightarrow>
                       (\<lparr>beta = b, psi_means = means, psi_stds = stds\<rparr>, rng3))))
      else
        (\<lparr>beta = 10,
          psi_means = linspace (- 0.5) 0.5 (length clade_idxs),
          psi_stds = linspace 0.05 0.25 (length clade_idxs)\<rparr>, rng))"

subsection \<open>GenerativeBase.get_species_data\<close>

definition list_index :: "'a list \<Rightarrow> nat \<Rightarrow> error + 'a" where
  "list_index xs i = (if i < length xs then Inr (xs ! i) else Inl IndexError)"

definition get_species_data :: "generator \<Rightarrow> params \<Rightarrow> nat list \<Rightarrow> error + species list \<times> generator" where
  "get_species_data rng ps groups =
     (case mapM (list_index (psi_means ps)) groups of
        Inl e \<Rightarrow> Inl e
      | Inr means \<Rightarrow>
          (case mapM (list_index (psi_stds ps)) groups of
             Inl e \<Rightarrow> Inl e
           | Inr stds \<Rightarrow>
               (case rng_normal_vec rng means stds of
                  Inl e \<Rightarrow> Inl e
                | Inr (psis, rng') \<Rightarrow>
                    Inr (map (\<lambda>(g, p). \<lparr>gidx = g, psi = p\<rparr>) (zip groups psis), rng'))))"

subsection \<open>GenerativeBase.get_velocities\<close>

text \<open>\<^verbatim>\<open>spdata['psi'][label]\<close>: the labels of \<^verbatim>\<open>spdata\<close> are its row positions.\<close>

definition psi_at :: "species list \<Rightarrow> nat \<Rightarrow> error + real" where
  "psi_at spdata i = (if i < length spdata then Inr (psi (spdata ! i)) else Inl KeyError)"

definition add_nulls :: "treenode \<Rightarrow> cross list \<Rightarrow> cross list" where
  "add_nulls tree ridata =
     ridata @ map (\<lambda>i. \<lparr>sidx0 = i, sidx1 = i, dist_col = 0\<rparr>) [0..<ntips tree]"

text \<open>
  The sort key \<^verbatim>\<open>by=['sidx0', 'sidx1']\<close>, and the three columns of \<^verbatim>\<open>get_crosses\<close>. No
  two rows of the table have the same key, so the order of the sorted table does not
  depend on the sorting algorithm.
\<close>

definition pair_key :: "'a cross_scheme \<Rightarrow> nat \<times> nat" where
  "pair_key r = (sidx0 r, sidx1 r)"

definition cross_part :: "'a cross_scheme \<Rightarrow> nat \<times> nat \<times> real" where
  "cross_part r = (sidx0 r, sidx1 r, dist_col r)"

definition sort_values :: "cross list \<Rightarrow> cross list" where
  "sort_values ridata = sort_key pair_key ridata"

definition get_velocities ::
  "generator \<Rightarrow> treenode \<Rightarrow> cross list \<Rightarrow> params \<Rightarrow> species list \<Rightarrow> error + velo list \<times> generator" where
  "get_velocities rng tree ridata ps spdata =
     (let sorted_rows = sort_values (add_nulls tree ridata);
          m = series_mean (map (\<lambda>r. Fin (dist_col r)) sorted_rows)
      in case mapM (\<lambda>r. case psi_at spdata (sidx0 r) of
                           Inl e \<Rightarrow> Inl e
                         | Inr p0 \<Rightarrow>
                             (case psi_at spdata (sidx1 r) of
                                Inl e \<Rightarrow> Inl e
                              | Inr p1 \<Rightarrow> Inr (beta ps + p0 + p1)))
                   sorted_rows of
           Inl e \<Rightarrow> Inl e
         | Inr loc \<Rightarrow>
             (case rng_normal_vec rng loc (replicate (length loc) 1) of
                Inl e \<Rightarrow> Inl e
              | Inr (jv, rng') \<Rightarrow>
                  Inr (map (\<lambda>(r, v). \<lparr>sidx0 = sidx0 r, sidx1 = sidx1 r, dist_col = dist_col r,
                                       distnorm = fdiv (fsub (Fin (dist_col r)) m) m,
                                       joint_velo = v\<rparr>)
                           (zip sorted_rows jv), rng')))"

subsection \<open>GenerativeBase.get_logit\<close>

definition center :: "npfloat list \<Rightarrow> npfloat list" where
  "center values = map (\<lambda>v. fsub v (fdiv (series_mean values) (series_std values))) values"

definition get_logit :: "regfun \<Rightarrow> velo list \<Rightarrow> row list" where
  "get_logit function ridata =
     (let values = map (\<lambda>r. function (Fin (joint_velo r)) (Fin (dist_col r))) ridata;
          values' = center values
      in map (\<lambda>(r, v). \<lparr>sidx0 = sidx0 r, sidx1 = sidx1 r, dist_col = dist_col r,
                          distnorm = distnorm r, joint_velo = joint_velo r,
                          expit = expit_f v, RI = None\<rparr>)
             (zip ridata values'))"

subsection \<open>GenerativeBase.sample_observations\<close>

text \<open>
  The draws of \<^verbatim>\<open>np.random.binomial\<close> and of \<^verbatim>\<open>DataFrame.sample\<close> consume the generator
  of the numpy module, \<open>np_random\<close>, not \<^verbatim>\<open>self.rng\<close>. The method assigns the column
  \<^verbatim>\<open>RI\<close> of \<^verbatim>\<open>self.ridata\<close> before it samples, so the result has three parts: the table
  returned or the exception raised, \<^verbatim>\<open>self.ridata\<close> afterwards, and the module's
  generator afterwards. \<^verbatim>\<open>if nsamples:\<close> is false for \<^verbatim>\<open>None\<close> and for 0;
  \<^verbatim>\<open>sample\<close> raises ValueError for a negative size and for a size above the row count.
\<close>

definition assign_RI :: "row list \<Rightarrow> nat list \<Rightarrow> row list" where
  "assign_RI ridata ris = map (\<lambda>(r, x). r\<lparr>RI := Some x\<rparr>) (zip ridata ris)"

definition sample_observations ::
  "generator \<Rightarrow> row list \<Rightarrow> int option \<Rightarrow> (error + row list) \<times> row list \<times> generator" where
  "sample_observations np_random ridata nsamples =
     (case binomial1 np_random (map expit ridata) of
        Inl e \<Rightarrow> (Inl e, ridata, np_random)
      | Inr (ris, np_random1) \<Rightarrow>
          (let ridata' = assign_RI ridata ris
           in case nsamples of
                None \<Rightarrow> (Inr ridata', ridata', np_random1)
              | Some n \<Rightarrow>
                  if n = 0 then (Inr ridata', ridata', np_random1)
                  else if n < 0 \<or> int (length ridata') < n
                    then (Inl ValueError, ridata', np_random1)
                  else (case choice np_random1 ridata' (nat n) of
                          (rows, np_random2) \<Rightarrow> (Inr rows, ridata', np_random2))))"

subsection \<open>The constructors\<close>

record GenerativeBase =
  rng :: generator
  tree :: treenode
  clade_idxs :: "nat list"
  function_f :: regfun
  ridata :: "row list"
  group_sizes :: "(nat \<times> nat) list"
  groups :: "nat list"
  params :: params
  spdata :: "species list"

text \<open>
  \<^verbatim>\<open>GenerativeBase.__init__\<close>. Three functions of the libraries are parameters:
  \<open>default_rng\<close> is \<^verbatim>\<open>np.random.default_rng\<close>, from the seed to the generator, and
  \<open>node_scale\<close> is \<^verbatim>\<open>toytree.tree(tree).mod.node_scale_root_height(1.0)\<close>; the third,
  \<open>bdtree\<close>, is \<^verbatim>\<open>toytree.rtree.bdtree\<close> in \<open>RandomTree_init\<close> below.
\<close>

definition GenerativeBase_init ::
  "(int option \<Rightarrow> generator) \<Rightarrow> (treenode \<Rightarrow> treenode) \<Rightarrow>
   treenode \<Rightarrow> nat list \<Rightarrow> string \<Rightarrow> int option \<Rightarrow> error + GenerativeBase" where
  "GenerativeBase_init default_rng node_scale tree0 cl model seed =
     (let rng0 = default_rng seed; t = node_scale tree0
      in case select_model model of
           Inl e \<Rightarrow> Inl e
         | Inr f \<Rightarrow>
         (case get_groups t cl of
            Inl e \<Rightarrow> Inl e
          | Inr (gs, g) \<Rightarrow>
          (case get_crosses t of
             Inl e \<Rightarrow> Inl e
           | Inr crosses \<Rightarrow>
           (case get_true_param_dists rng0 cl False of
              (ps, rng1) \<Rightarrow>
              (case get_species_data rng1 ps g of
                 Inl e \<Rightarrow> Inl e
               | Inr (sp, rng2) \<Rightarrow>
               (case get_velocities rng2 t crosses ps sp of
                  Inl e \<Rightarrow> Inl e
                | Inr (velos, rng3) \<Rightarrow>
                    Inr \<lparr>rng = rng3, tree = t, clade_idxs = cl, function_f = f,
                         ridata = get_logit f velos, group_sizes = gs, groups = g,
                         params = ps, spdata = sp\<rparr>))))))"

definition UserTree_init ::
  "(int option \<Rightarrow> generator) \<Rightarrow> (treenode \<Rightarrow> treenode) \<Rightarrow>
   treenode \<Rightarrow> nat list \<Rightarrow> string \<Rightarrow> int option \<Rightarrow> error + GenerativeBase" where
  "UserTree_init = GenerativeBase_init"

text \<open>\<^verbatim>\<open>RandomTree.get_bd_tree\<close>: the seed of the tree is the literal 666.\<close>

definition get_bd_tree :: "(nat \<Rightarrow> int \<Rightarrow> treenode) \<Rightarrow> nat \<Rightarrow> treenode" where
  "get_bd_tree bdtree n = bdtree n 666"

definition RandomTree_init ::
  "(int option \<Rightarrow> generator) \<Rightarrow> (treenode \<Rightarrow> treenode) \<Rightarrow> (nat \<Rightarrow> int \<Rightarrow> treenode) \<Rightarrow>
   nat \<Rightarrow> int option \<Rightarrow> string \<Rightarrow> int option \<Rightarrow> error + GenerativeBase" where
  "RandomTree_init default_rng node_scale bdtree n nclades model seed =
     (let t = get_bd_tree bdtree n
      in case get_clade_idxs t nclades of
           Inl e \<Rightarrow> Inl e
         | Inr cl \<Rightarrow> GenerativeBase_init default_rng node_scale t cl model seed)"

subsection \<open>Example trees\<close>

text \<open>
  Three trees of root height 1 with the indices toytree gives them: the internal nodes
  count down from the root in level order, then the tips from the first leaf to the last.
  \<open>cherry2\<close> is \<^verbatim>\<open>(a:1,b:1)\<close>, \<open>balanced4\<close> is \<^verbatim>\<open>((a,b),(c,d))\<close> and \<open>caterpillar4\<close> is
  \<^verbatim>\<open>(((a,b),c),d)\<close>.
\<close>

definition cherry2 :: treenode where
  "cherry2 = TreeNode 2 0 [TreeNode 1 1 [], TreeNode 0 1 []]"

definition balanced4 :: treenode where
  "balanced4 =
     TreeNode 6 0
       [TreeNode 5 (1/2) [TreeNode 3 (1/2) [], TreeNode 2 (1/2) []],
        TreeNode 4 (1/2) [TreeNode 1 (1/2) [], TreeNode 0 (1/2) []]]"

definition caterpillar4 :: treenode where
  "caterpillar4 =
     TreeNode 6 0
       [TreeNode 5 (1/3)
          [TreeNode 4 (1/3) [TreeNode 3 (1/3) [], TreeNode 2 (1/3) []],
           TreeNode 1 (2/3) []],
        TreeNode 0 1 []]"

text \<open>A generator for the examples: every variate is a tenth of the seed.\<close>

definition example_rng :: "int option \<Rightarrow> generator" where
  "example_rng seed = (\<lambda>k. case seed of None \<Rightarrow> 0 | Some s \<Rightarrow> real_of_int s / 10)"

section \<open>Properties\<close>

subsection \<open>Model selection\<close>

lemma select_model_linear: "select_model ''linear'' = Inr (\<lambda>v d. linea_f v d (Fin 0))"
  by (simp add: select_model_def MODEL_DICT_def)

lemma select_model_exponential:
  "select_model ''exponential'' = Inr (\<lambda>v d. expon_f v d (Fin 0))"
  by (simp add: select_model_def MODEL_DICT_def)

lemma select_model_quadratic: "select_model ''quadratic'' = Inr (\<lambda>v d. quadr_f v d (Fin 0))"
  by (simp add: select_model_def MODEL_DICT_def)

lemma select_model_logarithmic:
  "select_model ''logarithmic'' = Inr (\<lambda>v d. logar_f v d logar_intercept)"
  by (simp add: select_model_def MODEL_DICT_def)

lemma select_model_asymptotic_func:
  "select_model ''asymptotic_func'' = Inr (\<lambda>v d. asymp_f v d (Fin 0))"
  by (simp add: select_model_def MODEL_DICT_def)

text \<open>
  C7. Selecting the model by the name \<^verbatim>\<open>asymptotic\<close>, the value of the member
  \<^verbatim>\<open>Models.asymptotic\<close> of the enumeration, raises KeyError, and the constructor fails
  with it on every tree: the dictionary has the function under the key
  \<^verbatim>\<open>asymptotic_func\<close>, a name outside the enumeration, which selects it.
\<close>

theorem select_model_asymptotic_fails:
  "select_model (Models_value asymptotic) = Inl KeyError \<and>
   GenerativeBase_init default_rng node_scale tree0 cl (Models_value asymptotic) seed
     = Inl KeyError \<and>
   select_model ''asymptotic_func'' = Inr (\<lambda>v d. asymp_f v d (Fin 0))"
  by (simp add: GenerativeBase_init_def select_model_def MODEL_DICT_def)

subsection \<open>Auxiliary facts\<close>

lemma mapM_Inr:
  "mapM f xs = Inr ys \<Longrightarrow> list_all2 (\<lambda>x y. f x = Inr y) xs ys"
  by (induction xs arbitrary: ys) (auto split: sum.splits)

lemma mapM_length: "mapM f xs = Inr ys \<Longrightarrow> length ys = length xs"
  by (drule mapM_Inr) (simp add: list_all2_lengthD)

lemma mapM_total:
  "(\<And>x. x \<in> set xs \<Longrightarrow> \<exists>y. f x = Inr y) \<Longrightarrow> \<exists>ys. mapM f xs = Inr ys"
  by (induction xs) (fastforce split: sum.splits)+

lemma sum_rev_upt: "(\<Sum>i\<leftarrow>[0..<n]. n - Suc i) = n * (n - 1) div 2"
proof -
  have "(\<Sum>i\<leftarrow>[0..<n]. n - Suc i) = (\<Sum>i<n. n - Suc i)"
    by (simp add: interv_sum_list_conv_sum_set_nat atLeast0LessThan)
  also have "\<dots> = (\<Sum>i<n. i)"
    by (rule sum.nat_diff_reindex)
  also have "\<dots> = n * (n - 1) div 2"
    by (simp add: Sum_Ico_nat lessThan_atLeast0)
  finally show ?thesis .
qed

lemma length_combinations2: "length (combinations2 n) = n * (n - 1) div 2"
  by (simp add: combinations2_def length_concat comp_def sum_rev_upt)

lemma set_combinations2: "set (combinations2 n) = {(i, j). i < j \<and> j < n}"
  by (force simp: combinations2_def)



lemma combinations2_empty: "combinations2 n = [] \<longleftrightarrow> n < 2"
proof -
  have "combinations2 n = [] \<longleftrightarrow> length (combinations2 n) = 0" by simp
  also have "\<dots> \<longleftrightarrow> n * (n - 1) div 2 = 0" by (simp only: length_combinations2)
  also have "\<dots> \<longleftrightarrow> n < 2"
  proof (cases "n < 2")
    case True
    then have "n = 0 \<or> n = 1" by linarith
    then show ?thesis by auto
  next
    case False
    then have "2 * 1 \<le> n * (n - 1)" by (intro mult_le_mono) auto
    then have "1 \<le> n * (n - 1) div 2" by simp
    with False show ?thesis by simp
  qed
  finally show ?thesis .
qed

lemma get_crosses_Inr:
  assumes "get_crosses t = Inr cs"
  shows "map pair_key cs = combinations2 (ntips t)"
    and "\<And>r. r \<in> set cs \<Longrightarrow> get_dist t (sidx0 r) (sidx1 r) = Inr (2 * dist_col r)"
    and "2 \<le> ntips t"
proof -
  let ?f = "\<lambda>(i, j). case get_dist t i j of
                               Inl e \<Rightarrow> Inl e
                             | Inr d \<Rightarrow> Inr \<lparr>sidx0 = i, sidx1 = j, dist_col = d / 2\<rparr>"
  from assms have ne: "combinations2 (ntips t) \<noteq> []"
    and m: "mapM ?f (combinations2 (ntips t)) = Inr cs"
    by (auto simp: get_crosses_def Let_def split: if_splits)
  from ne show "2 \<le> ntips t" by (simp add: combinations2_empty)
  have la: "list_all2 (\<lambda>x y. ?f x = Inr y) (combinations2 (ntips t)) cs"
    by (rule mapM_Inr [OF m])
  have "list_all2 (\<lambda>x y. x = pair_key y) (combinations2 (ntips t)) cs"
    by (rule list_all2_mono [OF la]) (auto simp: pair_key_def split: sum.splits)
  then show "map pair_key cs = combinations2 (ntips t)"
    by (simp add: list_all2_conv_all_nth list_eq_iff_nth_eq)
  fix r assume "r \<in> set cs"
  then obtain k where k: "k < length cs" "cs ! k = r" by (auto simp: in_set_conv_nth)
  with la have "?f (combinations2 (ntips t) ! k) = Inr r"
    by (auto simp: list_all2_conv_all_nth)
  then show "get_dist t (sidx0 r) (sidx1 r) = Inr (2 * dist_col r)"
    by (auto split: prod.splits sum.splits)
qed


lemma rng_normal_vec_length:
  "rng_normal_vec g loc scale = Inr (xs, g') \<Longrightarrow> length xs = length loc"
  by (auto simp: rng_normal_vec_def split: if_splits)

lemma map_zip_fst:
  "length xs = length ys \<Longrightarrow> (\<And>x y. f (h (x, y)) = k x) \<Longrightarrow> map f (map h (zip xs ys)) = map k xs"
  by (induction xs ys rule: list_induct2) auto

lemma get_velocities_cross_part:
  assumes "get_velocities g t cs ps sp = Inr (vs, g')"
  shows "map cross_part vs = map cross_part (sort_values (add_nulls t cs))"
proof -
  let ?rows = "sort_values (add_nulls t cs)"
  from assms obtain loc jv where loc: "length loc = length ?rows"
    and jv: "rng_normal_vec g loc (replicate (length loc) 1) = Inr (jv, g')"
    and vs: "vs = map (\<lambda>(r, v). \<lparr>sidx0 = sidx0 r, sidx1 = sidx1 r, dist_col = dist_col r,
                 distnorm = fdiv (fsub (Fin (dist_col r))
                    (series_mean (map (\<lambda>r. Fin (dist_col r)) ?rows)))
                    (series_mean (map (\<lambda>r. Fin (dist_col r)) ?rows)),
                 joint_velo = v\<rparr>) (zip ?rows jv)"
    by (auto simp: get_velocities_def Let_def split: sum.splits dest: mapM_length)
  have "length ?rows = length jv"
    using rng_normal_vec_length [OF jv] loc by simp
  then show ?thesis
    unfolding vs by (rule map_zip_fst) (simp add: cross_part_def)
qed

lemma get_logit_cross_part: "map cross_part (get_logit f vs) = map cross_part vs"
proof -
  have "length vs = length (center (map (\<lambda>r. f (Fin (joint_velo r)) (Fin (dist_col r))) vs))"
    by (simp add: center_def)
  then show ?thesis
    unfolding get_logit_def Let_def by (rule map_zip_fst) (simp add: cross_part_def)
qed

lemma GenerativeBase_init_ridata:
  assumes "GenerativeBase_init default_rng node_scale tree0 cl model seed = Inr self"
  shows "\<exists>cs. get_crosses (tree self) = Inr cs \<and>
          map cross_part (ridata self) = map cross_part (sort_values (add_nulls (tree self) cs))"
  using assms
  by (auto simp: GenerativeBase_init_def Let_def get_logit_cross_part
           split: sum.splits prod.splits dest: get_velocities_cross_part)

lemma GenerativeBase_init_tree:
  assumes "GenerativeBase_init default_rng node_scale tree0 cl model seed = Inr self"
  shows "tree self = node_scale tree0" "clade_idxs self = cl"
  using assms
  by (auto simp: GenerativeBase_init_def Let_def split: sum.splits prod.splits)





lemma set_sort_values: "set (sort_values xs) = set xs"
  by (simp add: sort_values_def)




lemma first_some_None: "first_some xs = None \<longleftrightarrow> (\<forall>x\<in>set xs. x = None)"
  by (induction xs rule: first_some.induct) auto

lemma path_to_exists: "a \<in> idx ` set (nodes t) \<Longrightarrow> \<exists>p. path_to t a = Some p"
proof (induction t)
  case (TreeNode i d cs)
  show ?case
  proof (cases "i = a")
    case True
    then show ?thesis by simp
  next
    case False
    with TreeNode.prems obtain c where c: "c \<in> set cs" "a \<in> idx ` set (nodes c)"
      by auto
    then have "\<exists>p. path_to c a = Some p" by (rule TreeNode.IH)
    with c have "first_some (map (\<lambda>c. path_to c a) cs) \<noteq> None"
      by (auto simp: first_some_None)
    with False show ?thesis by auto
  qed
qed

lemma idx_dict_Some: "idx_dict t a = Some n \<Longrightarrow> idx n = a \<and> n \<in> set (nodes t)"
  by (auto simp: idx_dict_def dest!: map_of_SomeD)

lemma idx_dict_None: "idx_dict t a = None \<longleftrightarrow> a \<notin> idx ` set (nodes t)"
  by (simp add: idx_dict_def map_of_eq_None_iff image_image)

lemma strip_common_same: "strip_common p p = ([], [])"
  by (induction p) auto

lemma strip_common_swap: "strip_common q p = prod.swap (strip_common p q)"
  by (induction p q rule: strip_common.induct) auto

lemma get_distance_sym: "get_distance t n m = get_distance t m n"
proof -
  have "strip_common q p = (r2, r) \<longleftrightarrow> strip_common p q = (r, r2)" for p q r r2
    by (subst strip_common_swap) (cases "strip_common p q", auto)
  then show ?thesis
    by (auto simp: get_distance_def split: option.splits prod.splits)
qed

lemma get_dist_sym: "get_dist t a b = get_dist t b a"
  by (auto simp: get_dist_def get_distance_sym split: option.splits)

lemma get_dist_self:
  assumes "a \<in> idx ` set (nodes t)"
  shows "get_dist t a a = Inr 0"
proof -
  from assms obtain n where n: "idx_dict t a = Some n"
    using idx_dict_None [of t a] by auto
  then have "idx n = a" by (simp add: idx_dict_Some)
  moreover from assms obtain p where "path_to t a = Some p"
    using path_to_exists by blast
  ultimately show ?thesis
    using n by (simp add: get_dist_def get_distance_def strip_common_same)
qed

lemma leaves_subset_nodes: "set (leaves t) \<subseteq> set (nodes t)"
  by (induction t) auto

subsection \<open>The observation table\<close>

lemma example_run:
  "\<exists>r. RandomTree_init example_rng (\<lambda>t. t) (\<lambda>n s. balanced4) 4 (Some 2) ''linear'' seed = Inr r"
  by (simp add: RandomTree_init_def get_bd_tree_def get_clade_idxs_def expand_step_def nchildren_def
    GenerativeBase_init_def select_model_def MODEL_DICT_def get_groups_def get_group_sizes_def
    balanced4_def idx_dict_def get_crosses_def combinations2_def ntips_def get_dist_def
    get_distance_def upt_rec get_true_param_dists_def linspace_def get_species_data_def
    list_index_def rng_normal_vec_def get_velocities_def add_nulls_def sort_values_def pair_key_def
    psi_at_def Let_def enumerate_eq_zip)



subsection \<open>Distances\<close>

text \<open>
  C5, as the code has it. After construction every row of two distinct tips holds half
  of the distance that \<^verbatim>\<open>get_dist\<close> computes between them (\<^verbatim>\<open>get_crosses\<close> divides by 2),
  and every self-pair holds 0. The distance of \<^verbatim>\<open>get_dist\<close> is symmetric, and 0 from a
  node to itself.
\<close>

theorem dist_column_half_distance:
  assumes "GenerativeBase_init default_rng node_scale tree0 cl model seed = Inr self"
  shows "(\<forall>r\<in>set (ridata self).
            if sidx0 r = sidx1 r then dist_col r = 0
            else get_dist (tree self) (sidx0 r) (sidx1 r) = Inr (2 * dist_col r)) \<and>
         (\<forall>a b. get_dist (tree self) a b = get_dist (tree self) b a) \<and>
         (\<forall>a\<in>idx ` set (nodes (tree self)). get_dist (tree self) a a = Inr 0)"
proof -
  from GenerativeBase_init_ridata [OF assms] obtain cs
    where cs: "get_crosses (tree self) = Inr cs"
      and cp: "map cross_part (ridata self) = map cross_part (sort_values (add_nulls (tree self) cs))"
    by blast
  have row: "if sidx0 r = sidx1 r then dist_col r = 0
             else get_dist (tree self) (sidx0 r) (sidx1 r) = Inr (2 * dist_col r)"
    if r: "r \<in> set (ridata self)" for r
  proof -
    from r have "cross_part r \<in> set (map cross_part (ridata self))" by simp
    then have "cross_part r \<in> cross_part ` set (add_nulls (tree self) cs)"
      by (simp only: cp) (simp add: set_sort_values)
    then obtain c where c: "c \<in> set (add_nulls (tree self) cs)" "cross_part r = cross_part c"
      by auto
    from c(2) have eq: "sidx0 r = sidx0 c" "sidx1 r = sidx1 c" "dist_col r = dist_col c"
      by (auto simp: cross_part_def)
    show ?thesis
    proof (cases "c \<in> set cs")
      case True
      then have "pair_key c \<in> set (map pair_key cs)" by simp
      then have "sidx0 c < sidx1 c"
        by (simp only: get_crosses_Inr(1) [OF cs]) (auto simp: set_combinations2 pair_key_def)
      moreover have "get_dist (tree self) (sidx0 c) (sidx1 c) = Inr (2 * dist_col c)"
        by (rule get_crosses_Inr(2) [OF cs True])
      ultimately show ?thesis by (simp add: eq)
    next
      case False
      with c(1) have "sidx0 c = sidx1 c \<and> dist_col c = 0" by (auto simp: add_nulls_def)
      then show ?thesis by (simp add: eq)
    qed
  qed
  from row show ?thesis by (simp add: get_dist_sym [symmetric] get_dist_self)
qed

theorem dist_column_half_distance_witness:
  "\<exists>self. GenerativeBase_init example_rng (\<lambda>t. t) balanced4 [5, 4] ''linear'' (Some 12345) = Inr self \<and>
     (\<forall>r\<in>set (ridata self).
        if sidx0 r = sidx1 r then dist_col r = 0
        else get_dist balanced4 (sidx0 r) (sidx1 r) = Inr (2 * dist_col r)) \<and>
     get_dist balanced4 3 0 = get_dist balanced4 0 3 \<and> get_dist balanced4 3 3 = Inr 0"
proof -
  have "\<exists>r. GenerativeBase_init example_rng (\<lambda>t. t) balanced4 [5, 4] ''linear'' (Some 12345) = Inr r"
    using example_run [of "Some 12345"]
    by (simp add: RandomTree_init_def get_bd_tree_def get_clade_idxs_def expand_step_def
        nchildren_def balanced4_def idx_dict_def)
  then obtain self
    where s: "GenerativeBase_init example_rng (\<lambda>t. t) balanced4 [5, 4] ''linear'' (Some 12345) = Inr self"
    by blast
  have t: "tree self = balanced4"
    using GenerativeBase_init_tree(1) [OF s] by simp
  have m: "3 \<in> idx ` set (nodes balanced4)" by (simp add: balanced4_def)
  note h = dist_column_half_distance [OF s, unfolded t]
  from h have sym: "get_dist balanced4 3 0 = get_dist balanced4 0 3" by blast
  from h m have self0: "get_dist balanced4 3 3 = Inr 0" by blast
  from h sym self0 s show ?thesis by blast
qed

text \<open>
  On the tree \<^verbatim>\<open>(a:1,b:1)\<close> the path between the two tips has length 2, and the row of
  the pair holds 1.
\<close>

theorem dist_column_counterexample:
  "get_dist cherry2 0 1 = Inr 2 \<and>
   get_crosses cherry2 = Inr [\<lparr>sidx0 = 0, sidx1 = 1, dist_col = 1\<rparr>]"
  by (simp add: get_crosses_def cherry2_def combinations2_def ntips_def get_dist_def idx_dict_def
      get_distance_def upt_rec)

subsection \<open>The tree of RandomTree\<close>

text \<open>
  C10. The tree of a \<^verbatim>\<open>RandomTree\<close> is the birth-death tree of \<^verbatim>\<open>ntips\<close> tips made with
  the seed 666, scaled: two constructions with the same \<^verbatim>\<open>ntips\<close> have the same tree,
  whatever their seeds (and whatever their clade counts and models).
\<close>

theorem RandomTree_tree_ignores_seed:
  assumes "RandomTree_init default_rng node_scale bdtree n nclades1 model1 seed1 = Inr r1"
    and "RandomTree_init default_rng node_scale bdtree n nclades2 model2 seed2 = Inr r2"
  shows "tree r1 = tree r2 \<and> tree r1 = node_scale (bdtree n 666)"
proof -
  have "tree r = node_scale (bdtree n 666)"
    if "RandomTree_init default_rng node_scale bdtree n nclades model seed = Inr r"
    for nclades model seed r
    using that
    by (auto simp: RandomTree_init_def get_bd_tree_def Let_def
        split: sum.splits dest: GenerativeBase_init_tree(1))
  from this [OF assms(1)] this [OF assms(2)] show ?thesis by simp
qed

theorem RandomTree_tree_ignores_seed_witness:
  "\<exists>r1 r2.
     RandomTree_init example_rng (\<lambda>t. t) (\<lambda>n s. balanced4) 4 (Some 2) ''linear'' (Some 1) = Inr r1 \<and>
     RandomTree_init example_rng (\<lambda>t. t) (\<lambda>n s. balanced4) 4 (Some 2) ''linear'' (Some 2) = Inr r2 \<and>
     tree r1 = tree r2 \<and> tree r1 = balanced4"
proof -
  obtain r1 r2 where
    r: "RandomTree_init example_rng (\<lambda>t. t) (\<lambda>n s. balanced4) 4 (Some 2) ''linear'' (Some 1) = Inr r1"
       "RandomTree_init example_rng (\<lambda>t. t) (\<lambda>n s. balanced4) 4 (Some 2) ''linear'' (Some 2) = Inr r2"
    using example_run [of "Some 1"] example_run [of "Some 2"] by blast
  from RandomTree_tree_ignores_seed [OF r] r show ?thesis by blast
qed

subsection \<open>The logarithmic function at distance 0\<close>

text \<open>
  C8. At distance 0 the logarithmic function returns no finite number: \<^verbatim>\<open>np.log(0)\<close> is
  \<open>-inf\<close>, the product with the velocity is \<open>-inf\<close>, \<open>+inf\<close> or NaN, and adding the
  intercept \<open>1e-9\<close> changes nothing. No exception is raised.
\<close>

theorem logar_f_zero_distance:
  "logar_f (Fin v) (Fin 0) logar_intercept =
     (if v = 0 then NaN else if 0 < v then NInf else PInf)"
  by (simp add: logar_f_def logar_intercept_def signed_inf_def)

subsection \<open>The clade partitioner\<close>

lemma hd_insort_key:
  "hd (insort_key f x ys) = (if ys = [] \<or> f x \<le> f (hd ys) then x else hd ys)"
  by (cases ys) auto

lemma hd_sort_key_first_min:
  "xs \<noteq> [] \<Longrightarrow>
   \<exists>k<length xs. hd (sort_key f xs) = xs ! k \<and>
     (\<forall>j<length xs. f (xs ! k) \<le> f (xs ! j)) \<and> (\<forall>j<k. f (xs ! k) < f (xs ! j))"
proof (induction xs)
  case Nil
  then show ?case by simp
next
  case (Cons x xs)
  show ?case
  proof (cases "xs = []")
    case True
    then show ?thesis by simp
  next
    case False
    from Cons.IH [OF False] obtain k where k: "k < length xs" "hd (sort_key f xs) = xs ! k"
      "\<forall>j<length xs. f (xs ! k) \<le> f (xs ! j)" "\<forall>j<k. f (xs ! k) < f (xs ! j)"
      by blast
    from False have ne: "sort_key f xs \<noteq> []" by (metis length_sort list.size(3) length_0_conv)
    show ?thesis
    proof (cases "f x \<le> f (xs ! k)")
      case True
      have "\<forall>j<length (x # xs). f ((x # xs) ! 0) \<le> f ((x # xs) ! j)"
      proof (intro allI impI)
        fix j assume "j < length (x # xs)"
        then show "f ((x # xs) ! 0) \<le> f ((x # xs) ! j)"
          using True k(3) by (cases j) (auto intro: order_trans)
      qed
      moreover have "hd (sort_key f (x # xs)) = (x # xs) ! 0"
        using True k(2) ne by (simp add: hd_insort_key)
      ultimately show ?thesis by (intro exI [of _ 0]) simp
    next
      case False
      then have lt: "f (xs ! k) < f x" by simp
      have "\<forall>j<length (x # xs). f ((x # xs) ! Suc k) \<le> f ((x # xs) ! j)"
      proof (intro allI impI)
        fix j assume "j < length (x # xs)"
        then show "f ((x # xs) ! Suc k) \<le> f ((x # xs) ! j)"
          using lt k(3) by (cases j) auto
      qed
      moreover have "\<forall>j<Suc k. f ((x # xs) ! Suc k) < f ((x # xs) ! j)"
      proof (intro allI impI)
        fix j assume "j < Suc k"
        then show "f ((x # xs) ! Suc k) < f ((x # xs) ! j)"
          using lt k(4) by (cases j) auto
      qed
      moreover have "hd (sort_key f (x # xs)) = (x # xs) ! Suc k"
        using False k(2) ne by (simp add: hd_insort_key)
      ultimately show ?thesis using k(1) by (intro exI [of _ "Suc k"]) simp
    qed
  qed
qed

text \<open>
  C4, as the code has it. The loop runs \<open>nclades - 1\<close> times from the list holding the
  root index, and one clade gives the root alone. A pass selects the anchor at the first
  position of the list among those with the fewest children, removes it and appends the
  indices of its children, so the list grows by the number of children less one.
\<close>

theorem get_clade_idxs_steps:
  "get_clade_idxs t (Some n) = expand_loop t (nat (n - 1)) [idx t] \<and>
   get_clade_idxs t (Some 1) = Inr [idx t] \<and>
   expand_loop t (Suc k) cl =
     (case expand_step t cl of Inl e \<Rightarrow> Inl e | Inr cl' \<Rightarrow> expand_loop t k cl') \<and>
   (expand_step t cl = Inr cl' \<longrightarrow>
      (\<exists>p<length cl. \<exists>node.
         idx_dict t (cl ! p) = Some node \<and>
         cl' = remove1 (cl ! p) cl @ map idx (children node) \<and>
         length cl' + 1 = length cl + length (children node) \<and>
         (\<forall>j<length cl. \<forall>m. idx_dict t (cl ! j) = Some m \<longrightarrow>
            length (children node) \<le> length (children m) \<and>
            (j < p \<longrightarrow> length (children node) < length (children m)))))"
proof -
  have step: "\<exists>p<length cl. \<exists>node.
         idx_dict t (cl ! p) = Some node \<and>
         cl' = remove1 (cl ! p) cl @ map idx (children node) \<and>
         length cl' + 1 = length cl + length (children node) \<and>
         (\<forall>j<length cl. \<forall>m. idx_dict t (cl ! j) = Some m \<longrightarrow>
            length (children node) \<le> length (children m) \<and>
            (j < p \<longrightarrow> length (children node) < length (children m)))"
    if a: "expand_step t cl = Inr cl'"
  proof -
    from a obtain keys nidx rest node where
      keys: "mapM (nchildren t) cl = Inr keys"
      and srt: "map snd (sort_key fst (zip keys cl)) = nidx # rest"
      and node: "idx_dict t nidx = Some node"
      and cl': "cl' = remove1 nidx cl @ map idx (children node)"
      by (auto simp: expand_step_def split: sum.splits list.splits option.splits)
    have la: "list_all2 (\<lambda>x y. nchildren t x = Inr y) cl keys"
      by (rule mapM_Inr [OF keys])
    then have len: "length keys = length cl" by (simp add: list_all2_lengthD)
    have key: "nchildren t (cl ! j) = Inr (keys ! j)" if "j < length cl" for j
      using la that by (simp add: list_all2_conv_all_nth)
    let ?z = "zip keys cl"
    from srt have zne: "?z \<noteq> []" by auto
    from hd_sort_key_first_min [OF zne, of fst] obtain p where p: "p < length ?z"
      "hd (sort_key fst ?z) = ?z ! p"
      "\<forall>j<length ?z. fst (?z ! p) \<le> fst (?z ! j)" "\<forall>j<p. fst (?z ! p) < fst (?z ! j)"
      by blast
    from p(1) len have pl: "p < length cl" by simp
    have "sort_key fst ?z \<noteq> []" using srt by auto
    with srt have "nidx = snd (hd (sort_key fst ?z))"
      by (cases "sort_key fst ?z") auto
    with p(2) pl len have nidx: "nidx = cl ! p" by simp
    have kp: "keys ! p = length (children node)"
      using key [OF pl] node nidx by (simp add: nchildren_def)
    have mn: "length (children node) \<le> length (children m) \<and>
              (j < p \<longrightarrow> length (children node) < length (children m))"
      if j: "j < length cl" and m: "idx_dict t (cl ! j) = Some m" for j m
    proof -
      have kj: "keys ! j = length (children m)"
        using key [OF j] m by (simp add: nchildren_def)
      from p(3) j len pl have "keys ! p \<le> keys ! j" by auto
      moreover have "keys ! p < keys ! j" if "j < p"
        using p(4) that j len pl by auto
      ultimately show ?thesis by (simp add: kp kj)
    qed
    from pl have "cl ! p \<in> set cl" by simp
    then have "length (remove1 (cl ! p) cl) = length cl - 1" by (simp add: length_remove1)
    with pl have "length cl' + 1 = length cl + length (children node)"
      by (simp add: cl' nidx)
    with pl node nidx cl' mn show ?thesis by blast
  qed
  have "get_clade_idxs t (Some n) = expand_loop t (nat (n - 1)) [idx t]"
    by (simp add: get_clade_idxs_def)
  moreover have "get_clade_idxs t (Some 1) = Inr [idx t]"
    by (simp add: get_clade_idxs_def)
  ultimately show ?thesis using step by simp
qed

text \<open>
  On the balanced tree of four tips the anchors 5 and 4 have two children each; the pass
  selects 5, the first of the list, and not 4, the smaller index.
\<close>

theorem get_clade_idxs_tie_counterexample:
  "get_clade_idxs balanced4 (Some 2) = Inr [5, 4] \<and>
   nchildren balanced4 5 = Inr 2 \<and> nchildren balanced4 4 = Inr 2 \<and>
   expand_step balanced4 [5, 4] = Inr [4, 3, 2] \<and>
   get_clade_idxs balanced4 (Some 3) = Inr [4, 3, 2]"
  by (simp add: get_clade_idxs_def expand_step_def balanced4_def nchildren_def idx_dict_def
      numeral_eq_Suc)

theorem get_clade_idxs_steps_witness:
  "expand_step balanced4 [5, 4] = Inr [4, 3, 2] \<and>
   (\<exists>p<length [5, 4 :: nat]. \<exists>node.
      idx_dict balanced4 ([5, 4] ! p) = Some node \<and>
      [4, 3, 2] = remove1 ([5, 4] ! p) [5, 4] @ map idx (children node))"
proof -
  have s: "expand_step balanced4 [5, 4] = Inr [4, 3, 2]"
    by (simp add: expand_step_def balanced4_def nchildren_def idx_dict_def)
  from get_clade_idxs_steps [of balanced4 1 0 "[5, 4]" "[4, 3, 2]"] s
  show ?thesis by blast
qed

text \<open>
  C3. On the caterpillar tree of four tips, which has three internal nodes, three clades
  are asked for. The second pass selects the tip 0, a child of the root, because it has
  the fewest children, none, and replaces it by nothing: the partitioner returns the one
  anchor 5, whose descendants are the tips 3, 2 and 1. The groups hold three clade ids for
  four tips, and the constructor fails with KeyError when it looks up the fourth.
\<close>

theorem get_clade_idxs_drops_tip:
  "wf_tree caterpillar4 \<and> ntips caterpillar4 = 4 \<and>
   get_clade_idxs caterpillar4 (Some 2) = Inr [5, 0] \<and>
   get_clade_idxs caterpillar4 (Some 3) = Inr [5] \<and>
   map_option (map idx \<circ> leaves) (idx_dict caterpillar4 5) = Some [3, 2, 1] \<and>
   get_groups caterpillar4 [5] = Inr ([(0, 3)], [0, 0, 0]) \<and>
   RandomTree_init example_rng (\<lambda>t. t) (\<lambda>n s. caterpillar4) 4 (Some 3) ''linear'' seed
     = Inl KeyError"
proof -
  have "wf_tree caterpillar4"
    by (auto simp: wf_tree_def caterpillar4_def ntips_def)
  moreover have "ntips caterpillar4 = 4"
    by (simp add: caterpillar4_def ntips_def)
  moreover have c2: "get_clade_idxs caterpillar4 (Some 2) = Inr [5, 0]"
    by (simp add: get_clade_idxs_def expand_step_def caterpillar4_def nchildren_def idx_dict_def)
  moreover have c3: "get_clade_idxs caterpillar4 (Some 3) = Inr [5]"
    by (simp add: get_clade_idxs_def expand_step_def caterpillar4_def nchildren_def idx_dict_def
        numeral_eq_Suc)
  moreover have "map_option (map idx \<circ> leaves) (idx_dict caterpillar4 5) = Some [3, 2, 1]"
    by (simp add: caterpillar4_def idx_dict_def)
  moreover have "get_groups caterpillar4 [5] = Inr ([(0, 3)], [0, 0, 0])"
    by (simp add: get_groups_def get_group_sizes_def caterpillar4_def idx_dict_def numeral_eq_Suc)
  moreover have
    "GenerativeBase_init example_rng (\<lambda>t. t) caterpillar4 [5] ''linear'' seed = Inl KeyError"
    by (simp add: GenerativeBase_init_def select_model_def MODEL_DICT_def get_groups_def
        get_group_sizes_def caterpillar4_def idx_dict_def get_crosses_def combinations2_def
        ntips_def get_dist_def get_distance_def upt_rec get_true_param_dists_def linspace_def
        get_species_data_def list_index_def rng_normal_vec_def get_velocities_def add_nulls_def
        sort_values_def pair_key_def psi_at_def Let_def enumerate_eq_zip)
  then have "RandomTree_init example_rng (\<lambda>t. t) (\<lambda>n s. caterpillar4) 4 (Some 3) ''linear'' seed
     = Inl KeyError"
    by (simp add: RandomTree_init_def get_bd_tree_def c3)
  ultimately show ?thesis by blast
qed

subsection \<open>The score stage\<close>

text \<open>
  The expit column is the logistic function of the centred scores, and the scores are the
  regression function of the joint velocity and the raw distance.
\<close>

lemma get_logit_columns:
  "map expit (get_logit f rows) =
     map expit_f (center (map (\<lambda>r. f (Fin (joint_velo r)) (Fin (dist_col r))) rows))"
proof -
  let ?vs = "center (map (\<lambda>r. f (Fin (joint_velo r)) (Fin (dist_col r))) rows)"
  have l: "length rows = length ?vs" by (simp add: center_def)
  have "map expit (get_logit f rows) = map (\<lambda>(r, v). expit_f v) (zip rows ?vs)"
    by (simp add: get_logit_def Let_def comp_def case_prod_unfold)
  also have "\<dots> = map expit_f (map snd (zip rows ?vs))"
    by (simp add: comp_def case_prod_unfold)
  also have "\<dots> = map expit_f ?vs"
    using l by simp
  finally show ?thesis .
qed

text \<open>
  C9. A run on the two-tip tree with the model \<^verbatim>\<open>logarithmic\<close>: the two self-pairs have
  the distance 0, so their scores are infinite; the mean of the scores is infinite, their
  standard deviation is NaN, and all three expit values are NaN: none lies between 0
  and 1.
\<close>

theorem get_logit_logarithmic_nan:
  "\<exists>self. GenerativeBase_init example_rng (\<lambda>t. t) cherry2 [2] ''logarithmic'' (Some 1) = Inr self \<and>
     map pair_key (ridata self) = [(0, 0), (0, 1), (1, 1)] \<and>
     map dist_col (ridata self) = [0, 1, 0] \<and>
     map expit (ridata self) = [NaN, NaN, NaN]"
  by (simp add: GenerativeBase_init_def select_model_def MODEL_DICT_def get_groups_def
        get_group_sizes_def cherry2_def idx_dict_def get_crosses_def combinations2_def
        ntips_def get_dist_def get_distance_def upt_rec get_true_param_dists_def linspace_def
        get_species_data_def list_index_def rng_normal_vec_def get_velocities_def add_nulls_def
        sort_values_def pair_key_def psi_at_def Let_def enumerate_eq_zip example_rng_def
        get_logit_def center_def series_mean_def series_std_def fsum_def fsub_def
        logar_f_def logar_intercept_def signed_inf_def advance_def)

subsection \<open>Sampling observations\<close>

lemma example_sqrt_bound: "911 < 300 * sqrt (829921 / 30000)"
proof -
  have "sqrt (4\<^sup>2) < sqrt (829921 / 30000)"
    by (subst real_sqrt_less_iff) simp
  then have "4 < sqrt (829921 / 30000)" by simp
  then show ?thesis by simp
qed

lemma example_linear_run:
  "\<exists>c self. GenerativeBase_init example_rng (\<lambda>t. t) cherry2 [2] ''linear'' (Some 1) = Inr self \<and>
     0 < c \<and> c < 1 \<and>
     map pair_key (ridata self) = [(0, 0), (0, 1), (1, 1)] \<and>
     map RI (ridata self) = [None, None, None] \<and>
     map expit (ridata self) =
       [expit_f (Fin (- c)), expit_f (Fin (911 / 100 - c)), expit_f (Fin (- c))]"
  apply (rule exI [of _ "911 / (300 * sqrt (829921 / 30000))"])
  apply (simp add: GenerativeBase_init_def select_model_def MODEL_DICT_def get_groups_def
        get_group_sizes_def cherry2_def idx_dict_def get_crosses_def combinations2_def
        ntips_def get_dist_def get_distance_def upt_rec get_true_param_dists_def linspace_def
        get_species_data_def list_index_def rng_normal_vec_def get_velocities_def add_nulls_def
        sort_values_def pair_key_def psi_at_def Let_def enumerate_eq_zip example_rng_def
        get_logit_def center_def series_mean_def series_std_def fsum_def fsub_def
        linea_f_def advance_def example_sqrt_bound del: expit_f.simps)
  done

lemma pick_uniform:
  assumes "0 \<le> g 0" "g 0 < 1" "k < m"
  shows "pick g m = k \<longleftrightarrow> real k / real m \<le> g 0 \<and> g 0 < real (Suc k) / real m"
proof -
  from assms have m: "0 < real m" by simp
  let ?x = "g 0 * real m"
  have x0: "0 \<le> ?x" using assms(1) by simp
  have xm: "?x < real m" using assms(2) m by simp
  then have "\<lfloor>?x\<rfloor> < int m" by (simp add: floor_less_iff)
  moreover have "0 \<le> \<lfloor>?x\<rfloor>" using x0 by simp
  ultimately have lt: "nat \<lfloor>?x\<rfloor> < m" by linarith
  then have "pick g m = nat \<lfloor>?x\<rfloor>" by (simp add: pick_def)
  also have "nat \<lfloor>?x\<rfloor> = k \<longleftrightarrow> \<lfloor>?x\<rfloor> = int k"
    using \<open>0 \<le> \<lfloor>?x\<rfloor>\<close> by linarith
  also have "\<dots> \<longleftrightarrow> real k \<le> ?x \<and> ?x < real k + 1"
    by (simp add: floor_eq_iff)
  also have "\<dots> \<longleftrightarrow> real k / real m \<le> g 0 \<and> g 0 < real (Suc k) / real m"
    using m by (simp add: field_simps)
  finally show ?thesis .
qed

lemma pick_less: "0 < m \<Longrightarrow> pick g m < m"
  by (simp add: pick_def)

lemma valid_p_expit_f: "valid_p (expit_f (Fin a))"
proof -
  have "0 < 1 + exp (- a)" by (simp add: add_pos_pos)
  then have "0 \<le> 1 / (1 + exp (- a)) \<and> 1 / (1 + exp (- a)) \<le> 1" by simp
  then show ?thesis by simp
qed

lemma bernoulli_zero_expit: "- 710 < a \<Longrightarrow> bernoulli 0 (expit_f (Fin a)) = 1"
  by (simp add: add_pos_pos)

lemma bernoulli_half_expit:
  "- 710 < a \<Longrightarrow> bernoulli (1 / 2) (expit_f (Fin a)) = (if 0 < a then 1 else 0)"
proof -
  have p: "0 < 1 + exp (- a)" by (simp add: add_pos_pos)
  have "1 / 2 < 1 / (1 + exp (- a)) \<longleftrightarrow> 1 + exp (- a) < 2"
    using p by (simp add: field_simps)
  also have "\<dots> \<longleftrightarrow> 0 < a" by simp
  finally have "1 / 2 < 1 / (1 + exp (- a)) \<longleftrightarrow> 0 < a" .
  then show ?thesis if "- 710 < a" using that by auto
qed

lemma binomial1_valid:
  "list_all valid_p ps \<Longrightarrow>
   binomial1 g ps = Inr (map (\<lambda>(k, p). bernoulli (g k) p) (enumerate 0 ps), advance g (length ps))"
  by (simp add: binomial1_def list_ex_iff list_all_iff)

lemma binomial1_Inr_valid:
  "binomial1 g ps = Inr (ris, g') \<Longrightarrow>
   list_all valid_p ps \<and> ris = map (\<lambda>(k, p). bernoulli (g k) p) (enumerate 0 ps) \<and>
   g' = advance g (length ps)"
  by (auto simp: binomial1_def list_ex_iff list_all_iff split: if_splits)

lemma map_RI_assign_RI:
  "length ris = length tbl \<Longrightarrow> map RI (assign_RI tbl ris) = map Some ris"
  unfolding assign_RI_def by (induction ris tbl rule: list_induct2) auto

lemma length_remove_nth: "k < length xs \<Longrightarrow> length (remove_nth k xs) = length xs - 1"
  by (induction k xs rule: remove_nth.induct) auto

lemma nth_remove_nth:
  "j < length xs - 1 \<Longrightarrow> remove_nth k xs ! j = xs ! (if j < k then j else Suc j)"
proof (induction k xs arbitrary: j rule: remove_nth.induct)
  case (1 k)
  then show ?case by simp
next
  case (2 x xs)
  then show ?case by simp
next
  case (3 k x xs)
  show ?case
  proof (cases j)
    case 0
    then show ?thesis by simp
  next
    case (Suc j')
    with "3.prems" have "j' < length xs - 1" by simp
    from "3.IH" [OF this] Suc show ?thesis by simp
  qed
qed

lemma choice_Suc:
  "pool \<noteq> [] \<Longrightarrow>
   fst (choice g pool (Suc n)) =
     pool ! pick g (length pool)
       # fst (choice (advance g 1) (remove_nth (pick g (length pool)) pool) n)"
  by (simp add: Let_def split: prod.splits)

text \<open>The rows chosen are rows of the pool at distinct positions.\<close>

lemma choice_positions:
  "n \<le> length pool \<Longrightarrow>
   \<exists>ks. fst (choice g pool n) = map ((!) pool) ks \<and> length ks = n \<and> distinct ks \<and>
        (\<forall>k\<in>set ks. k < length pool)"
proof (induction n arbitrary: g pool)
  case 0
  show ?case by simp
next
  case (Suc n)
  then have ne: "pool \<noteq> []" by auto
  define k where "k = pick g (length pool)"
  from ne have kl: "k < length pool" by (simp add: k_def pick_less)
  let ?pool' = "remove_nth k pool"
  have l': "length ?pool' = length pool - 1" by (rule length_remove_nth [OF kl])
  with Suc.prems have "n \<le> length ?pool'" by simp
  from Suc.IH [OF this, of "advance g 1"] obtain ks where ks:
    "fst (choice (advance g 1) ?pool' n) = map ((!) ?pool') ks" "length ks = n" "distinct ks"
    "\<forall>j\<in>set ks. j < length ?pool'"
    by blast
  let ?up = "\<lambda>j. if j < k then j else Suc j"
  have m: "map ((!) ?pool') ks = map ((!) pool) (map ?up ks)"
    using ks(4) l' by (simp add: nth_remove_nth)
  have "fst (choice g pool (Suc n)) = pool ! k # fst (choice (advance g 1) ?pool' n)"
    unfolding k_def by (rule choice_Suc [OF ne])
  then have r: "fst (choice g pool (Suc n)) = map ((!) pool) (k # map ?up ks)"
    by (simp only: ks(1) m list.map)
  have inj: "inj_on ?up (set ks)" by (auto simp: inj_on_def split: if_splits)
  have nk: "k \<notin> set (map ?up ks)" by (auto split: if_splits)
  have d: "distinct (k # map ?up ks)"
    using ks(3) inj nk by (simp add: distinct_map)
  have b: "\<forall>j\<in>set (k # map ?up ks). j < length pool"
    using ks(4) l' kl by auto
  have "length (k # map ?up ks) = Suc n" using ks(2) by simp
  with r d b show ?case by blast
qed

lemma assign_RI_other_columns:
  "length ris = length tbl \<Longrightarrow>
   map (\<lambda>r. r\<lparr>RI := None\<rparr>) (assign_RI tbl ris) = map (\<lambda>r. r\<lparr>RI := None\<rparr>) tbl"
  unfolding assign_RI_def by (induction ris tbl rule: list_induct2) auto

lemma sample_observations_RI:
  assumes "list_all valid_p (map expit tbl)"
  shows "map RI (fst (snd (sample_observations g tbl nsamples))) =
           map (\<lambda>(k, p). Some (bernoulli (g k) p)) (enumerate 0 (map expit tbl))"
proof -
  let ?ris = "map (\<lambda>(k, p). bernoulli (g k) p) (enumerate 0 (map expit tbl))"
  have "fst (snd (sample_observations g tbl nsamples)) = assign_RI tbl ?ris"
    by (simp add: sample_observations_def binomial1_valid [OF assms] Let_def
        split: option.splits prod.splits)
  moreover have "map RI (assign_RI tbl ?ris) = map Some ?ris"
    by (rule map_RI_assign_RI) simp
  ultimately show ?thesis by (simp add: comp_def case_prod_unfold)
qed

text \<open>
  C6, as the code has it. Let the outcome draw succeed, that is, let every expit value be
  a probability. The method assigns the column \<^verbatim>\<open>RI\<close> of \<^verbatim>\<open>self.ridata\<close> and changes
  nothing else of it: the rows and the other columns stay. For \<open>0 < n \<le>\<close> the row count it
  returns exactly \<open>n\<close> rows, the choice of \<open>n\<close> rows of that table, which are rows at \<open>n\<close>
  different positions; each step of the choice picks, for a uniform variate, every
  position of the remaining pool on an interval of the same length. For \<open>n\<close> above the row
  count and for negative \<open>n\<close> it raises ValueError; without a size, or with the size 0, it
  returns the whole table.
\<close>

theorem sample_observations_subsample:
  assumes "binomial1 np_random (map expit tbl) = Inr (ris, np_random1)"
  shows "list_all valid_p (map expit tbl) \<and>
         fst (snd (sample_observations np_random tbl nsamples)) = assign_RI tbl ris \<and>
         length (assign_RI tbl ris) = length tbl \<and>
         map (\<lambda>r. r\<lparr>RI := None\<rparr>) (assign_RI tbl ris) = map (\<lambda>r. r\<lparr>RI := None\<rparr>) tbl \<and>
         (0 < n \<and> n \<le> int (length tbl) \<longrightarrow>
            fst (sample_observations np_random tbl (Some n))
              = Inr (fst (choice np_random1 (assign_RI tbl ris) (nat n))) \<and>
            (\<exists>ks. fst (sample_observations np_random tbl (Some n))
                    = Inr (map ((!) (assign_RI tbl ris)) ks) \<and>
                  int (length ks) = n \<and> distinct ks \<and> (\<forall>k\<in>set ks. k < length tbl))) \<and>
         (pool \<noteq> [] \<longrightarrow>
            fst (choice g pool (Suc m)) =
              pool ! pick g (length pool)
                # fst (choice (advance g 1) (remove_nth (pick g (length pool)) pool) m)) \<and>
         (0 \<le> g 0 \<and> g 0 < 1 \<and> k < length pool \<longrightarrow>
            (pick g (length pool) = k \<longleftrightarrow>
               real k / real (length pool) \<le> g 0 \<and> g 0 < real (Suc k) / real (length pool))) \<and>
         (int (length tbl) < n \<longrightarrow>
            fst (sample_observations np_random tbl (Some n)) = Inl ValueError) \<and>
         (n < 0 \<longrightarrow>
            fst (sample_observations np_random tbl (Some n)) = Inl ValueError) \<and>
         fst (sample_observations np_random tbl None) = Inr (assign_RI tbl ris) \<and>
         fst (sample_observations np_random tbl (Some 0)) = Inr (assign_RI tbl ris)"
proof -
  from binomial1_Inr_valid [OF assms] have v: "list_all valid_p (map expit tbl)"
    and lr: "length ris = length tbl"
    by simp_all
  then have la: "length (assign_RI tbl ris) = length tbl"
    by (simp add: assign_RI_def)
  have st: "fst (snd (sample_observations np_random tbl nsamples)) = assign_RI tbl ris"
    using assms
    by (simp add: sample_observations_def Let_def split: option.splits prod.splits)
  have smp: "fst (sample_observations np_random tbl (Some n))
              = Inr (fst (choice np_random1 (assign_RI tbl ris) (nat n))) \<and>
            (\<exists>ks. fst (sample_observations np_random tbl (Some n))
                    = Inr (map ((!) (assign_RI tbl ris)) ks) \<and>
                  int (length ks) = n \<and> distinct ks \<and> (\<forall>k\<in>set ks. k < length tbl))"
    if n: "0 < n" "n \<le> int (length tbl)"
  proof -
    from n la have "nat n \<le> length (assign_RI tbl ris)" by simp
    from choice_positions [OF this, of np_random1] obtain ks where ks:
      "fst (choice np_random1 (assign_RI tbl ris) (nat n)) = map ((!) (assign_RI tbl ris)) ks"
      "length ks = nat n" "distinct ks" "\<forall>k\<in>set ks. k < length (assign_RI tbl ris)"
      by blast
    have "fst (sample_observations np_random tbl (Some n))
        = Inr (fst (choice np_random1 (assign_RI tbl ris) (nat n)))"
      using assms n la
      by (simp add: sample_observations_def Let_def split: prod.splits)
    with ks n la show ?thesis by auto
  qed
  have stp: "fst (choice g pool (Suc m)) =
              pool ! pick g (length pool)
                # fst (choice (advance g 1) (remove_nth (pick g (length pool)) pool) m)"
    if "pool \<noteq> []"
    by (rule choice_Suc [OF that])
  have uni: "pick g (length pool) = k \<longleftrightarrow>
               real k / real (length pool) \<le> g 0 \<and> g 0 < real (Suc k) / real (length pool)"
    if "0 \<le> g 0 \<and> g 0 < 1 \<and> k < length pool"
    using that by (intro pick_uniform) simp_all
  have big: "fst (sample_observations np_random tbl (Some n)) = Inl ValueError"
    if "int (length tbl) < n"
    using assms that la by (simp add: sample_observations_def Let_def)
  have neg: "fst (sample_observations np_random tbl (Some n)) = Inl ValueError"
    if "n < 0"
    using assms that la by (simp add: sample_observations_def Let_def)
  have none: "fst (sample_observations np_random tbl None) = Inr (assign_RI tbl ris)"
    using assms by (simp add: sample_observations_def Let_def)
  have zero: "fst (sample_observations np_random tbl (Some 0)) = Inr (assign_RI tbl ris)"
    using assms by (simp add: sample_observations_def Let_def)
  from v st la assign_RI_other_columns [OF lr] smp stp uni big neg none zero
  show ?thesis by blast
qed

lemma example_linear_valid:
  assumes "map expit tbl =
     [expit_f (Fin (- c)), expit_f (Fin (911 / 100 - c)), expit_f (Fin (- c))]"
    and "0 < c" "c < 1"
  shows "binomial1 (\<lambda>k. 0) (map expit tbl) = Inr ([1, 1, 1], advance (\<lambda>k. 0) 3)"
    and "binomial1 (\<lambda>k. 1 / 2) (map expit tbl) = Inr ([0, 1, 0], advance (\<lambda>k. 1 / 2) 3)"
proof -
  have v: "list_all valid_p (map expit tbl)"
    unfolding assms(1) by (simp add: valid_p_expit_f del: expit_f.simps)
  have l: "length (map expit tbl) = 3" unfolding assms(1) by simp
  have z1: "bernoulli 0 (expit_f (Fin (- c))) = 1"
    by (rule bernoulli_zero_expit) (use assms(3) in simp)
  have z2: "bernoulli 0 (expit_f (Fin (911 / 100 - c))) = 1"
    by (rule bernoulli_zero_expit) (use assms(3) in simp)
  have h1: "bernoulli (1 / 2) (expit_f (Fin (- c))) = 0"
    using bernoulli_half_expit [of "- c"] assms(2,3) by simp
  have h2: "bernoulli (1 / 2) (expit_f (Fin (911 / 100 - c))) = 1"
    using bernoulli_half_expit [of "911 / 100 - c"] assms(2,3) by simp
  show "binomial1 (\<lambda>k. 0) (map expit tbl) = Inr ([1, 1, 1], advance (\<lambda>k. 0) 3)"
    unfolding binomial1_valid [OF v] l unfolding assms(1)
    by (simp add: enumerate_eq_zip upt_rec z1 z2 del: expit_f.simps)
  show "binomial1 (\<lambda>k. 1 / 2) (map expit tbl) = Inr ([0, 1, 0], advance (\<lambda>k. 1 / 2) 3)"
    unfolding binomial1_valid [OF v] l unfolding assms(1)
    by (simp add: enumerate_eq_zip upt_rec h1 h2 del: expit_f.simps)
qed

theorem sample_observations_subsample_witness:
  "\<exists>self. GenerativeBase_init example_rng (\<lambda>t. t) cherry2 [2] ''linear'' (Some 1) = Inr self \<and>
     binomial1 (\<lambda>k. 0) (map expit (ridata self)) = Inr ([1, 1, 1], advance (\<lambda>k. 0) 3) \<and>
     (\<exists>ks. fst (sample_observations (\<lambda>k. 0) (ridata self) (Some 2))
              = Inr (map ((!) (assign_RI (ridata self) [1, 1, 1])) ks) \<and>
            int (length ks) = 2 \<and> distinct ks) \<and>
     fst (sample_observations (\<lambda>k. 0) (ridata self) (Some 4)) = Inl ValueError \<and>
     fst (sample_observations (\<lambda>k. 0) (ridata self) (Some (- 1))) = Inl ValueError"
proof -
  from example_linear_run obtain c self where
    s: "GenerativeBase_init example_rng (\<lambda>t. t) cherry2 [2] ''linear'' (Some 1) = Inr self"
    and c: "0 < c" "c < 1"
    and e: "map expit (ridata self) =
       [expit_f (Fin (- c)), expit_f (Fin (911 / 100 - c)), expit_f (Fin (- c))]"
    by (elim exE conjE) (rule that, assumption+)
  note b = example_linear_valid(1) [OF e c]
  have l: "length (ridata self) = 3"
    using arg_cong [OF e, of length] by simp
  note t = sample_observations_subsample [OF b, of None _ "[]" "\<lambda>k. 0" 0 0]
  have n2: "0 < (2::int) \<and> 2 \<le> int (length (ridata self))" using l by simp
  note t2 = t [of 2, THEN conjunct2, THEN conjunct2, THEN conjunct2, THEN conjunct2,
      THEN conjunct1, THEN mp, OF n2, THEN conjunct2]
  from t2 obtain ks where
    "fst (sample_observations (\<lambda>k. 0) (ridata self) (Some 2))
            = Inr (map ((!) (assign_RI (ridata self) [1, 1, 1])) ks)"
    "int (length ks) = 2" "distinct ks"
    by (elim exE conjE) (rule that, assumption+)
  then have two:
    "\<exists>ks. fst (sample_observations (\<lambda>k. 0) (ridata self) (Some 2))
            = Inr (map ((!) (assign_RI (ridata self) [1, 1, 1])) ks) \<and>
          int (length ks) = 2 \<and> distinct ks"
    by (intro exI [of _ ks] conjI)
  from t [of 4] l have four:
    "fst (sample_observations (\<lambda>k. 0) (ridata self) (Some 4)) = Inl ValueError"
    by simp
  from t [of "- 1"] have neg:
    "fst (sample_observations (\<lambda>k. 0) (ridata self) (Some (- 1))) = Inl ValueError"
    by simp
  from s b two four neg show ?thesis
    by (intro exI [of _ self] conjI)
qed

text \<open>
  A run on the two-tip tree: the table has no column \<^verbatim>\<open>RI\<close> before the call and the
  outcomes 1, 1, 1 after it, so the method changes \<^verbatim>\<open>self.ridata\<close>; and with the size 0
  it returns three rows.
\<close>

theorem sample_observations_counterexample:
  "\<exists>self. GenerativeBase_init example_rng (\<lambda>t. t) cherry2 [2] ''linear'' (Some 1) = Inr self \<and>
     map RI (ridata self) = [None, None, None] \<and>
     map RI (fst (snd (sample_observations (\<lambda>k. 0) (ridata self) (Some 1))))
       = [Some 1, Some 1, Some 1] \<and>
     (\<exists>rows. fst (sample_observations (\<lambda>k. 0) (ridata self) (Some 0)) = Inr rows \<and>
             length rows = 3)"
proof -
  from example_linear_run obtain c self where
    s: "GenerativeBase_init example_rng (\<lambda>t. t) cherry2 [2] ''linear'' (Some 1) = Inr self"
    and c: "0 < c" "c < 1"
    and r: "map RI (ridata self) = [None, None, None]"
    and e: "map expit (ridata self) =
       [expit_f (Fin (- c)), expit_f (Fin (911 / 100 - c)), expit_f (Fin (- c))]"
    by (elim exE conjE) (rule that, assumption+)
  note b = example_linear_valid(1) [OF e c]
  have l: "length (ridata self) = 3"
    using arg_cong [OF e, of length] by simp
  have st: "fst (snd (sample_observations (\<lambda>k. 0) (ridata self) (Some 1)))
      = assign_RI (ridata self) [1, 1, 1]"
    using b by (simp add: sample_observations_def Let_def split: prod.splits)
  have "map RI (assign_RI (ridata self) [1, 1, 1]) = map Some [1, 1, 1]"
    by (rule map_RI_assign_RI) (simp add: l)
  with st have a: "map RI (fst (snd (sample_observations (\<lambda>k. 0) (ridata self) (Some 1))))
       = [Some 1, Some 1, Some 1]"
    by simp
  have "fst (sample_observations (\<lambda>k. 0) (ridata self) (Some 0))
      = Inr (assign_RI (ridata self) [1, 1, 1])"
    using b by (simp add: sample_observations_def Let_def)
  moreover have "length (assign_RI (ridata self) [1, 1, 1]) = 3"
    by (simp add: assign_RI_def l)
  ultimately have z: "\<exists>rows. fst (sample_observations (\<lambda>k. 0) (ridata self) (Some 0)) = Inr rows \<and>
             length rows = 3"
    by blast
  from s r a z show ?thesis
    by (intro exI [of _ self] conjI)
qed

subsection \<open>The generator of the outcome draws\<close>

text \<open>
  C1. One run on the two-tip tree, with the model \<^verbatim>\<open>linear\<close> and the seed 1, and two
  states of the generator of the numpy module: \<^verbatim>\<open>sample_observations\<close> draws the outcomes
  from the module's generator, so the same run gives the outcomes 1, 1, 1 in the one state
  and 0, 1, 0 in the other. The seed of the run does not determine them.
\<close>

theorem sample_observations_module_generator:
  "\<exists>self. GenerativeBase_init example_rng (\<lambda>t. t) cherry2 [2] ''linear'' (Some 1) = Inr self \<and>
     map pair_key (ridata self) = [(0, 0), (0, 1), (1, 1)] \<and>
     map RI (fst (snd (sample_observations (\<lambda>k. 0) (ridata self) None)))
       = [Some 1, Some 1, Some 1] \<and>
     map RI (fst (snd (sample_observations (\<lambda>k. 1 / 2) (ridata self) None)))
       = [Some 0, Some 1, Some 0]"
proof -
  from example_linear_run obtain c self where
    s: "GenerativeBase_init example_rng (\<lambda>t. t) cherry2 [2] ''linear'' (Some 1) = Inr self"
    and c: "0 < c" "c < 1"
    and k: "map pair_key (ridata self) = [(0, 0), (0, 1), (1, 1)]"
    and e: "map expit (ridata self) =
       [expit_f (Fin (- c)), expit_f (Fin (911 / 100 - c)), expit_f (Fin (- c))]"
    by (elim exE conjE) (rule that, assumption+)
  have l: "length (ridata self) = 3"
    using arg_cong [OF e, of length] by simp
  have out: "map RI (fst (snd (sample_observations g (ridata self) None))) = map Some ris"
    if "binomial1 g (map expit (ridata self)) = Inr (ris, g')" "length ris = 3" for g ris g'
  proof -
    have "fst (snd (sample_observations g (ridata self) None)) = assign_RI (ridata self) ris"
      using that(1) by (simp add: sample_observations_def Let_def)
    moreover have "map RI (assign_RI (ridata self) ris) = map Some ris"
      by (rule map_RI_assign_RI) (simp add: l that(2))
    ultimately show ?thesis by simp
  qed
  from out [OF example_linear_valid(1) [OF e c]] out [OF example_linear_valid(2) [OF e c]] s k
  show ?thesis by simp
qed

end
